theory Spec2Isabelle
  imports Main "HOL-Library.Multiset"
begin

section \<open>Time points and the C calendar functions\<close>

text \<open>
  \<^verbatim>\<open>std::chrono::system_clock::time_point\<close> is a signed 64-bit count of ticks since
  the epoch (1970-01-01 00:00:00 UTC); the tick is one nanosecond, as in libstdc++,
  with which \<^verbatim>\<open>build.sh\<close> builds the server. A \<^verbatim>\<open>time_t\<close> counts whole seconds.
  Both are modelled as \<open>int\<close>. The tick count is kept in its 64-bit range
  (\<open>representable\<close>) by \<open>wrap64\<close>: where the program adds to a time point or
  converts seconds to ticks and the exact result leaves the range, the model takes
  the result modulo \<open>2 ^ 64\<close>, as the machine's addition and multiplication do.
  (In C++ such an overflow is undefined; the properties below say where it does
  not happen.) The seconds in a \<^verbatim>\<open>time_t\<close> stay far inside its 64 bits for every
  time point and every four-digit year, and are not wrapped.
\<close>

type_synonym time_point = int

type_synonym time_t = int

definition ticks_per_second :: int where
  "ticks_per_second = 1000000000"

definition time_point_min :: time_point where
  "time_point_min = - (2 ^ 63)"



definition wrap64 :: "int \<Rightarrow> time_point" where
  \<comment> \<open>the value of the low 64 bits, read as a signed number\<close>
  "wrap64 x = (x - time_point_min) mod 2 ^ 64 + time_point_min"

definition hours :: "int \<Rightarrow> int" where
  \<comment> \<open>\<^verbatim>\<open>std::chrono::hours(n)\<close> converted to the clock's duration\<close>
  "hours n = n * 3600 * ticks_per_second"

definition from_time_t :: "time_t \<Rightarrow> time_point" where
  "from_time_t s = wrap64 (s * ticks_per_second)"

definition to_time_t :: "time_point \<Rightarrow> time_t" where
  \<comment> \<open>\<^verbatim>\<open>duration_cast<seconds>\<close>: C++ integer division, which truncates towards zero\<close>
  "to_time_t t =
     (if 0 \<le> t then t div ticks_per_second else - ((- t) div ticks_per_second))"

text \<open>
  \<^verbatim>\<open>struct tm\<close>, with the fields the program's calls read: \<^verbatim>\<open>tm_year\<close> counts
  from 1900, \<^verbatim>\<open>tm_mon\<close> from 0, and \<^verbatim>\<open>tm_isdst\<close> is positive when daylight saving
  time is in force. (\<^verbatim>\<open>tm_wday\<close> and \<^verbatim>\<open>tm_yday\<close> are ignored by \<^verbatim>\<open>mktime\<close> and by
  the format \<^verbatim>\<open>%Y-%m-%d %H:%M\<close>.)
\<close>

record tm =
  tm_sec :: int
  tm_min :: int
  tm_hour :: int
  tm_mday :: int
  tm_mon :: int
  tm_year :: int
  tm_isdst :: int

subsection \<open>The calendar\<close>

text \<open>
  The proleptic Gregorian calendar, as the C library computes with it.
  \<open>timegm\<close> puts the fields of a \<^verbatim>\<open>struct tm\<close> together to the seconds since the
  epoch, reading them as UTC. It accepts fields outside their ranges and
  normalises them: a month outside 0..11 carries into the year, and a day of the
  month beyond the month's length runs on into the following month. \<open>gmtime\<close>,
  further down, is its inverse.
\<close>

definition is_leap :: "int \<Rightarrow> bool" where
  "is_leap y = (y mod 4 = 0 \<and> (y mod 100 \<noteq> 0 \<or> y mod 400 = 0))"

definition days_in_year :: "int \<Rightarrow> int" where
  "days_in_year y = (if is_leap y then 366 else 365)"

definition days_in_month :: "int \<Rightarrow> int \<Rightarrow> int" where
  \<comment> \<open>the month is \<^verbatim>\<open>tm_mon\<close>: 0 is January\<close>
  "days_in_month y m =
     (if m = 1 then (if is_leap y then 29 else 28)
      else if m = 3 \<or> m = 5 \<or> m = 8 \<or> m = 10 then 30
      else 31)"

definition days_before_year :: "int \<Rightarrow> int" where
  \<comment> \<open>days from 1970-01-01 to the first of January of year \<open>y\<close>\<close>
  "days_before_year y =
     365 * (y - 1970) + ((y - 1) div 4 - (y - 1) div 100 + (y - 1) div 400) - 477"

definition days_before_month :: "int \<Rightarrow> int \<Rightarrow> int" where
  \<comment> \<open>days from the first of January of year \<open>y\<close> to the first of month \<open>m\<close>\<close>
  "days_before_month y m = sum_list (map (days_in_month y) [0..m - 1])"

definition timegm :: "tm \<Rightarrow> time_t" where
  "timegm t =
     (let y = tm_year t + 1900 + tm_mon t div 12;
          m = tm_mon t mod 12;
          days = days_before_year y + days_before_month y m + (tm_mday t - 1)
      in days * 86400 + tm_hour t * 3600 + tm_min t * 60 + tm_sec t)"

subsection \<open>Years advance by 365 or 366 days\<close>

lemma div_step_int:
  fixes y k :: int
  assumes "0 < k"
  shows "y div k = (y - 1) div k + (if y mod k = 0 then 1 else 0)"
proof (cases "y mod k = 0")
  case True
  have y: "y = k * (y div k)"
    using mult_div_mod_eq [of k y] True by simp
  have "y - 1 = k * (y div k - 1) + (k - 1)"
    using y by (simp add: algebra_simps)
  then have "(y - 1) div k = y div k - 1"
    by (rule int_div_pos_eq) (use assms in simp_all)
  with True show ?thesis by simp
next
  case False
  have r: "0 < y mod k" "y mod k < k"
    using False assms pos_mod_sign [of k y] pos_mod_bound [of k y] by linarith+
  have "y - 1 = k * (y div k) + (y mod k - 1)"
    using mult_div_mod_eq [of k y] by linarith
  then have "(y - 1) div k = y div k"
    by (rule int_div_pos_eq) (use r in simp_all)
  with False show ?thesis by simp
qed

lemma mod_0_dvd_trans:
  fixes y k m :: int
  assumes "k dvd m" "y mod m = 0"
  shows "y mod k = 0"
proof -
  from assms(2) have "m dvd y" by (rule mod_0_imp_dvd)
  with assms(1) have "k dvd y" by (rule dvd_trans)
  then show ?thesis by (rule dvd_imp_mod_0)
qed

lemma mod_100_4: "(y::int) mod 100 = 0 \<Longrightarrow> y mod 4 = 0"
  by (rule mod_0_dvd_trans [of 4 100]) simp_all

lemma mod_400_100: "(y::int) mod 400 = 0 \<Longrightarrow> y mod 100 = 0"
  by (rule mod_0_dvd_trans [of 100 400]) simp_all

lemma leap_step_arith:
  fixes A B C :: int
  assumes "A' = A + (if p4 then 1 else 0)" "B' = B + (if p100 then 1 else 0)"
    "C' = C + (if p400 then 1 else 0)" "p100 \<Longrightarrow> p4" "p400 \<Longrightarrow> p100"
  shows "365 * (y + 1 - 1970) + (A' - B' + C') - 477 =
     365 * (y - 1970) + (A - B + C) - 477 + (if p4 \<and> (\<not> p100 \<or> p400) then 366 else 365)"
  using assms by (cases p4; cases p100; cases p400; simp)

lemma days_before_year_step:
  "days_before_year (y + 1) = days_before_year y + days_in_year y"
proof -
  have a: "y div 4 = (y - 1) div 4 + (if y mod 4 = 0 then 1 else 0)"
    by (rule div_step_int) simp
  have b: "y div 100 = (y - 1) div 100 + (if y mod 100 = 0 then 1 else 0)"
    by (rule div_step_int) simp
  have c: "y div 400 = (y - 1) div 400 + (if y mod 400 = 0 then 1 else 0)"
    by (rule div_step_int) simp
  have "365 * (y + 1 - 1970) + (y div 4 - y div 100 + y div 400) - 477 =
     365 * (y - 1970) + ((y - 1) div 4 - (y - 1) div 100 + (y - 1) div 400) - 477 +
       (if y mod 4 = 0 \<and> (\<not> y mod 100 = 0 \<or> y mod 400 = 0) then 366 else 365)"
    by (rule leap_step_arith [OF a b c mod_100_4 mod_400_100])
  then show ?thesis
    by (simp only: days_before_year_def days_in_year_def is_leap_def add_diff_cancel_right')
qed

lemma days_in_year_pos: "365 \<le> days_in_year y"
  by (simp add: days_in_year_def)

lemma days_before_year_less: "days_before_year y < days_before_year (y + 1)"
  using days_in_year_pos [of y] by (simp only: days_before_year_step)

lemma days_before_year_pred: "days_before_year (y - 1) < days_before_year y"
  using days_before_year_less [of "y - 1"] by simp

lemma year_down_decreases:
  "d < days_before_year y \<Longrightarrow> nat (days_before_year (y - 1) - d) < nat (days_before_year y - d)"
  using days_before_year_pred [of y] by linarith

lemma year_up_decreases:
  "days_before_year (y + 1) \<le> d \<Longrightarrow> nat (d - days_before_year (y + 1)) < nat (d - days_before_year y)"
  using days_before_year_less [of y] by linarith

subsection \<open>From a day count back to the calendar\<close>

text \<open>
  \<open>gmtime\<close> breaks seconds since the epoch down into the fields of UTC. It finds
  the year by stepping from 1970 (down for days before the epoch, up otherwise) to
  the year whose first day is the last one not after the given day, and the month
  in the same way within the year.
\<close>

function year_down :: "int \<Rightarrow> int \<Rightarrow> int" where
  "year_down d y = (if d < days_before_year y then year_down d (y - 1) else y)"
  by pat_completeness auto
termination
  by (relation "measure (\<lambda>(d, y). nat (days_before_year y - d))")
    (simp_all only: wf_measure in_measure prod.case year_down_decreases)

function year_up :: "int \<Rightarrow> int \<Rightarrow> int" where
  "year_up d y = (if days_before_year (y + 1) \<le> d then year_up d (y + 1) else y)"
  by pat_completeness auto
termination
  by (relation "measure (\<lambda>(d, y). nat (d - days_before_year y))")
    (simp_all only: wf_measure in_measure prod.case year_up_decreases)

function month_up :: "int \<Rightarrow> int \<Rightarrow> int \<Rightarrow> int" where
  "month_up y yd m =
     (if m < 11 \<and> days_before_month y (m + 1) \<le> yd then month_up y yd (m + 1) else m)"
  by pat_completeness auto
termination
  by (relation "measure (\<lambda>(y, yd, m). nat (11 - m))") simp_all

definition year_of_days :: "int \<Rightarrow> int" where
  "year_of_days d = year_up d (year_down d 1970)"

definition month_of :: "int \<Rightarrow> int \<Rightarrow> int" where
  "month_of y yd = month_up y yd 0"

definition gmtime :: "time_t \<Rightarrow> tm" where
  "gmtime t =
     (let days = t div 86400;
          rem = t mod 86400;
          y = year_of_days days;
          yd = days - days_before_year y;
          m = month_of y yd
      in \<lparr>tm_sec = rem mod 60, tm_min = rem div 60 mod 60, tm_hour = rem div 3600,
          tm_mday = yd - days_before_month y m + 1, tm_mon = m, tm_year = y - 1900,
          tm_isdst = 0\<rparr>)"

declare year_down.simps [simp del] year_up.simps [simp del] month_up.simps [simp del]

subsection \<open>The local time zone\<close>

text \<open>
  \<^verbatim>\<open>localtime\<close> and \<^verbatim>\<open>mktime\<close> belong to the C library, and what they compute
  depends on the time zone the process runs in. The zone is a parameter of the
  model: the offset of its standard time from UTC in seconds (positive east of
  Greenwich), what daylight saving time adds to it, and the periods in which
  daylight saving time is in force, each given by its first second and the
  first second after it, in seconds since the epoch. (A zone whose standard
  offset changes in the course of time is not covered.)

  \<^verbatim>\<open>localtime\<close> breaks the seconds down in the offset in force at that instant and
  sets \<^verbatim>\<open>tm_isdst\<close>. \<^verbatim>\<open>mktime\<close> reads the fields as daylight saving time when
  \<^verbatim>\<open>tm_isdst\<close> is positive and as standard time when it is zero, whatever is in
  force at the time the fields name; when it is negative, \<^verbatim>\<open>mktime\<close> finds out
  itself. (The program calls \<^verbatim>\<open>mktime\<close> with \<^verbatim>\<open>tm_isdst\<close> zero, from the
  zero-initialised \<^verbatim>\<open>tm\<close> of \<^verbatim>\<open>parseDateTime\<close>, or as \<^verbatim>\<open>localtime\<close> has set it.
  \<^verbatim>\<open>mktime\<close> also writes the normalised fields back, which the program does not
  read.)
\<close>

record zone =
  std_offset :: int
  dst_saving :: int
  dst_periods :: "(time_t \<times> time_t) list"

definition dst_active :: "zone \<Rightarrow> time_t \<Rightarrow> bool" where
  "dst_active z t = list_ex (\<lambda>(a, b). a \<le> t \<and> t < b) (dst_periods z)"

definition utc_offset :: "zone \<Rightarrow> time_t \<Rightarrow> int" where
  "utc_offset z t = std_offset z + (if dst_active z t then dst_saving z else 0)"

definition localtime :: "zone \<Rightarrow> time_t \<Rightarrow> tm" where
  "localtime z t =
     (gmtime (t + utc_offset z t))\<lparr>tm_isdst := (if dst_active z t then 1 else 0)\<rparr>"

definition mktime :: "zone \<Rightarrow> tm \<Rightarrow> time_t" where
  "mktime z x =
     (let as_std = timegm x - std_offset z;
          as_dst = timegm x - std_offset z - dst_saving z
      in if tm_isdst x > 0 then as_dst
         else if tm_isdst x = 0 then as_std
         else if dst_active z as_dst then as_dst
         else as_std)"

section \<open>Alarm events and the recurrence calculator\<close>

text \<open>
  \<^verbatim>\<open>enum class RecurrenceType\<close> has the underlying type \<^verbatim>\<open>int\<close>, and the program
  makes its values by \<^verbatim>\<open>static_cast\<close> from integers that it does not check (the
  \<^verbatim>\<open>recurrence\<close> number of a request in \<^verbatim>\<open>main.cpp\<close>, the \<^verbatim>\<open>recurrence\<close> column in
  \<^verbatim>\<open>Database::loadAlarms\<close>). So a value of the type is any integer, and the five
  enumerators are the values 0 to 4.
\<close>

datatype RecurrenceType = RecurrenceType int

definition NONE :: RecurrenceType where
  "NONE = RecurrenceType 0"

definition DAILY :: RecurrenceType where
  "DAILY = RecurrenceType 1"

definition WEEKLY :: RecurrenceType where
  "WEEKLY = RecurrenceType 2"

definition MONTHLY :: RecurrenceType where
  "MONTHLY = RecurrenceType 3"

definition YEARLY :: RecurrenceType where
  "YEARLY = RecurrenceType 4"

fun static_cast_int :: "RecurrenceType \<Rightarrow> int" where
  "static_cast_int (RecurrenceType i) = i"

record AlarmEvent =
  alarm_id :: int
  description :: string
  datetime :: time_point
  recurrence :: RecurrenceType







section \<open>The time string \<^verbatim>\<open>YYYY-MM-DD HH:MM\<close>\<close>

text \<open>
  \<^verbatim>\<open>std::put_time\<close> and \<^verbatim>\<open>std::get_time\<close> belong to the C++ library. The model
  covers the one format the program uses, \<^verbatim>\<open>%Y-%m-%d %H:%M\<close>, in the classic
  locale. Writing follows \<^verbatim>\<open>strftime\<close>: the year as a plain decimal number, the
  other fields with two digits.
\<close>

definition is_digit :: "char \<Rightarrow> bool" where
  "is_digit c = (48 \<le> (of_char c :: int) \<and> (of_char c :: int) \<le> 57)"

definition digit_val :: "char \<Rightarrow> int" where
  "digit_val c = of_char c - 48"

definition digit_char :: "int \<Rightarrow> char" where
  "digit_char d = char_of (48 + d)"

definition is_space :: "char \<Rightarrow> bool" where
  "is_space c = ((of_char c :: int) = 32 \<or> 9 \<le> (of_char c :: int) \<and> (of_char c :: int) \<le> 13)"

fun digits :: "nat \<Rightarrow> string" where
  "digits n = (if n < 10 then [digit_char (int n)]
     else digits (n div 10) @ [digit_char (int (n mod 10))])"

definition decimal :: "int \<Rightarrow> string" where
  "decimal n = (if n < 0 then CHR ''-'' # digits (nat (- n)) else digits (nat n))"

definition pad2 :: "int \<Rightarrow> string" where
  \<comment> \<open>\<^verbatim>\<open>%02d\<close>\<close>
  "pad2 n = (if 0 \<le> n \<and> n < 10 then CHR ''0'' # decimal n else decimal n)"

definition put_time :: "tm \<Rightarrow> string" where
  "put_time x =
     decimal (tm_year x + 1900) @ ''-'' @ pad2 (tm_mon x + 1) @ ''-'' @ pad2 (tm_mday x) @
     '' '' @ pad2 (tm_hour x) @ '':'' @ pad2 (tm_min x)"

text \<open>
  Reading follows \<^verbatim>\<open>time_get\<close> of libstdc++. A number is read digit by digit up
  to its width (4 for the year, 2 for the others), stopping before a character
  that is no digit and at a digit that takes the value beyond the field's
  maximum; it must have at least one digit and lie in the field's range.
\<close>

fun extract_num_loop :: "nat \<Rightarrow> int \<Rightarrow> int \<Rightarrow> nat \<Rightarrow> string \<Rightarrow> int \<times> nat \<times> string" where
  "extract_num_loop 0 hi v i s = (v, i, s)"
| "extract_num_loop (Suc n) hi v i [] = (v, i, [])"
| "extract_num_loop (Suc n) hi v i (c # cs) =
     (if is_digit c then
        (let v' = v * 10 + digit_val c
         in if v' > hi then (v', i, c # cs) else extract_num_loop n hi v' (Suc i) cs)
      else (v, i, c # cs))"

definition extract_num :: "int \<Rightarrow> int \<Rightarrow> nat \<Rightarrow> string \<Rightarrow> int option \<times> string" where
  "extract_num lo hi len s =
     (case extract_num_loop len hi 0 0 s of
        (v, i, rest) \<Rightarrow> (if i \<noteq> 0 \<and> lo \<le> v \<and> v \<le> hi then Some v else None, rest))"

definition extract_mday :: "string \<Rightarrow> int option \<times> string" where
  \<comment> \<open>\<^verbatim>\<open>%d\<close>: one white-space character may stand before the number\<close>
  "extract_mday s =
     (case s of
        [] \<Rightarrow> (None, [])
      | c # cs \<Rightarrow>
          if is_space c then (if cs = [] then (None, []) else extract_num 1 31 2 cs)
          else extract_num 1 31 2 s)"

text \<open>
  The stream: the characters not read yet, and the two state flags that the
  reading can set. \<^verbatim>\<open>time_get::get\<close> goes through the format while no flag is
  set. Before each item of the format, input at its end sets both flags. A
  conversion reads its number, stores it in the \<^verbatim>\<open>tm\<close> if it could be read and
  sets \<^verbatim>\<open>failbit\<close> if not, and sets \<^verbatim>\<open>eofbit\<close> if the input is at its end then. The
  characters \<^verbatim>\<open>-\<close> and \<^verbatim>\<open>:\<close> of the format must stand in the input; the blank of
  the format skips any run of white space.
\<close>

record stream =
  unread :: string
  failbit :: bool
  eofbit :: bool

definition good :: "stream \<Rightarrow> bool" where
  "good st = (\<not> failbit st \<and> \<not> eofbit st)"

definition get_field ::
  "(string \<Rightarrow> int option \<times> string) \<Rightarrow> (int \<Rightarrow> tm \<Rightarrow> tm) \<Rightarrow> stream \<times> tm \<Rightarrow> stream \<times> tm" where
  "get_field extract store p =
     (case p of (st, x) \<Rightarrow>
        if \<not> good st then p
        else if unread st = [] then (st\<lparr>failbit := True, eofbit := True\<rparr>, x)
        else
          (case extract (unread st) of
             (None, s) \<Rightarrow> (st\<lparr>unread := s, failbit := True, eofbit := (s = [])\<rparr>, x)
           | (Some v, s) \<Rightarrow> (st\<lparr>unread := s, eofbit := (s = [])\<rparr>, store v x)))"

definition get_literal :: "char \<Rightarrow> stream \<times> tm \<Rightarrow> stream \<times> tm" where
  "get_literal c p =
     (case p of (st, x) \<Rightarrow>
        if \<not> good st then p
        else
          (case unread st of
             [] \<Rightarrow> (st\<lparr>failbit := True, eofbit := True\<rparr>, x)
           | d # s \<Rightarrow> if d = c then (st\<lparr>unread := s\<rparr>, x) else (st\<lparr>failbit := True\<rparr>, x)))"

definition get_space :: "stream \<times> tm \<Rightarrow> stream \<times> tm" where
  "get_space p =
     (case p of (st, x) \<Rightarrow>
        if \<not> good st then p
        else if unread st = [] then (st\<lparr>failbit := True, eofbit := True\<rparr>, x)
        else (st\<lparr>unread := dropWhile is_space (unread st)\<rparr>, x))"

text \<open>
  \<^verbatim>\<open>ss >> std::get_time(&tm, "%Y-%m-%d %H:%M")\<close> on a stream holding the string
  and a zero-initialised \<^verbatim>\<open>tm\<close>. The stream's sentry skips leading white space
  first, and if nothing is left it sets \<^verbatim>\<open>failbit\<close> and nothing is read. The
  result is whether the stream is without \<^verbatim>\<open>failbit\<close> afterwards, and the \<^verbatim>\<open>tm\<close>:
  the fields read before the reading stopped, the others still 0.
\<close>

definition get_time :: "string \<Rightarrow> bool \<times> tm" where
  "get_time s0 =
     (let tm0 = \<lparr>tm_sec = 0, tm_min = 0, tm_hour = 0, tm_mday = 0, tm_mon = 0, tm_year = 0,
                tm_isdst = 0\<rparr>;
          s = dropWhile is_space s0
      in if s = [] then (False, tm0)
         else
           (let p0 = (\<lparr>unread = s, failbit = False, eofbit = False\<rparr>, tm0);
                p1 = get_field (extract_num 0 9999 4) (\<lambda>v x. x\<lparr>tm_year := v - 1900\<rparr>) p0;
                p2 = get_literal CHR ''-'' p1;
                p3 = get_field (extract_num 1 12 2) (\<lambda>v x. x\<lparr>tm_mon := v - 1\<rparr>) p2;
                p4 = get_literal CHR ''-'' p3;
                p5 = get_field extract_mday (\<lambda>v x. x\<lparr>tm_mday := v\<rparr>) p4;
                p6 = get_space p5;
                p7 = get_field (extract_num 0 23 2) (\<lambda>v x. x\<lparr>tm_hour := v\<rparr>) p6;
                p8 = get_literal CHR '':'' p7;
                p9 = get_field (extract_num 0 59 2) (\<lambda>v x. x\<lparr>tm_min := v\<rparr>) p8
            in (\<not> failbit (fst p9), snd p9)))"

text \<open>
  \<^verbatim>\<open>datetime_utils::parseDateTime\<close> and \<^verbatim>\<open>datetime_utils::formatDateTime\<close>. The
  parser passes the \<^verbatim>\<open>tm\<close> on to \<^verbatim>\<open>mktime\<close> without looking at the stream's
  state, so it returns a time point for every string.
\<close>

definition parseDateTime :: "zone \<Rightarrow> string \<Rightarrow> time_point" where
  "parseDateTime z datetime_str = from_time_t (mktime z (snd (get_time datetime_str)))"

definition formatDateTime :: "zone \<Rightarrow> time_point \<Rightarrow> string" where
  "formatDateTime z tp = put_time (localtime z (to_time_t tp))"

declare digits.simps [simp del]

section \<open>The event queue\<close>

text \<open>
  \<^verbatim>\<open>AlarmEvent::operator>\<close> compares the due times only.
\<close>

definition event_greater :: "AlarmEvent \<Rightarrow> AlarmEvent \<Rightarrow> bool" where
  "event_greater a other = (datetime a > datetime other)"

text \<open>
  \<^verbatim>\<open>events\<close> is a \<^verbatim>\<open>std::priority_queue\<close> ordered by \<^verbatim>\<open>std::greater\<close>, a container
  of the C++ library: \<^verbatim>\<open>top\<close> is an element than which no other is smaller, and
  \<^verbatim>\<open>pop\<close> removes it. The queue is modelled by its contents in the order of
  insertion. Which of several events with the same due time is on top depends on
  the library's heap layout; the model takes the one inserted first. \<^verbatim>\<open>top\<close> and
  \<^verbatim>\<open>pop\<close> on an empty queue are undefined in C++ and unspecified here; the program
  calls them on non-empty queues only.
\<close>

definition pq_push :: "AlarmEvent \<Rightarrow> AlarmEvent list \<Rightarrow> AlarmEvent list" where
  "pq_push e q = q @ [e]"

fun pq_top :: "AlarmEvent list \<Rightarrow> AlarmEvent" where
  "pq_top [e] = e"
| "pq_top (e # f # q) = (let m = pq_top (f # q) in if event_greater e m then m else e)"

definition pq_pop :: "AlarmEvent list \<Rightarrow> AlarmEvent list" where
  "pq_pop q = remove1 (pq_top q) q"

subsection \<open>The top of the queue is a least element\<close>

lemma pq_top_in: "q \<noteq> [] \<Longrightarrow> pq_top q \<in> set q"
  by (induction q rule: pq_top.induct) (auto simp: Let_def)

lemma pq_top_least: "e \<in> set q \<Longrightarrow> datetime (pq_top q) \<le> datetime e"
  by (induction q rule: pq_top.induct) (auto simp: Let_def event_greater_def)

lemma pq_pop_length: "q \<noteq> [] \<Longrightarrow> length (pq_pop q) < length q"
proof -
  assume q: "q \<noteq> []"
  then have "length (remove1 (pq_top q) q) = length q - 1"
    by (simp add: length_remove1 pq_top_in)
  moreover from q have "0 < length q" by simp
  ultimately show ?thesis by (simp add: pq_pop_def)
qed


section \<open>The database\<close>

text \<open>
  The table \<^verbatim>\<open>alarms\<close> of the SQLite database, with the row id that
  \<^verbatim>\<open>AUTOINCREMENT\<close> gave last, and the calls made on the \<^verbatim>\<open>Database\<close> object. The
  recurrence column holds an integer. Whether SQLite prepares and executes a
  statement is decided outside the program: each call takes the outcome as its
  first argument, with the text of \<^verbatim>\<open>sqlite3_errmsg\<close>.
\<close>

record alarm_row =
  row_id :: int
  row_description :: string
  row_datetime :: string
  row_recurrence :: int

datatype db_call =
  AddAlarm string string RecurrenceType
  | LoadAlarms
  | UpdateAlarmDateTime int string

record Database =
  rows :: "alarm_row list"
  last_rowid :: int
  calls :: "db_call list"

datatype sqlite_result = SQLITE_OK | PREPARE_ERROR string | STEP_ERROR string

datatype DatabaseException = DatabaseException string

datatype AlarmSystemException = AlarmSystemException string

fun what :: "DatabaseException \<Rightarrow> string" where
  "what (DatabaseException message) = message"

definition Database_addAlarm ::
  "sqlite_result \<Rightarrow> string \<Rightarrow> string \<Rightarrow> RecurrenceType \<Rightarrow> Database \<Rightarrow>
     (DatabaseException + int) \<times> Database" where
  "Database_addAlarm rc description' datetime' recurrence' d =
     (let d1 = d\<lparr>calls := calls d @ [AddAlarm description' datetime' recurrence']\<rparr> in
      case rc of
        PREPARE_ERROR msg \<Rightarrow>
          (Inl (DatabaseException (''Failed to prepare statement: '' @ msg)), d1)
      | STEP_ERROR msg \<Rightarrow>
          (Inl (DatabaseException (''Failed to insert alarm: '' @ msg)), d1)
      | SQLITE_OK \<Rightarrow>
          (let id' = last_rowid d1 + 1
           in (Inr id',
               d1\<lparr>rows := rows d1 @ [\<lparr>row_id = id', row_description = description',
                       row_datetime = datetime',
                       row_recurrence = static_cast_int recurrence'\<rparr>],
                  last_rowid := id'\<rparr>)))"





section \<open>The alarm system\<close>

text \<open>
  The state of an \<^verbatim>\<open>AlarmSystem\<close> as one thread sees it: the queue, the database,
  and what has been written to \<^verbatim>\<open>std::cout\<close> and \<^verbatim>\<open>std::cerr\<close>, line by line.
  The mutex, the condition variable and the worker thread are not part of the
  model: every operation below runs with the mutex held, as one step. Each
  reading of \<^verbatim>\<open>system_clock::now()\<close> is an argument of the operation that reads it,
  and so is the time zone of the process.
\<close>

record AlarmSystem =
  events :: "AlarmEvent list"
  db :: Database
  cout :: "string list"
  cerr :: "string list"

definition recurrenceTypeToString :: "RecurrenceType \<Rightarrow> string" where
  "recurrenceTypeToString type =
     (if type = DAILY then ''Daily''
      else if type = WEEKLY then ''Weekly''
      else if type = MONTHLY then ''Monthly''
      else if type = YEARLY then ''Yearly''
      else ''None'')"



text \<open>\<^verbatim>\<open>AlarmSystem::addEvent\<close>.\<close>

definition addEvent ::
  "zone \<Rightarrow> sqlite_result \<Rightarrow> string \<Rightarrow> string \<Rightarrow> RecurrenceType \<Rightarrow> AlarmSystem \<Rightarrow>
     (AlarmSystemException + unit) \<times> AlarmSystem" where
  "addEvent z rc description' datetime_str recurrence' s =
     (let tp = parseDateTime z datetime_str in
      case Database_addAlarm rc description' datetime_str recurrence' (db s) of
        (Inl e, d) \<Rightarrow>
          (Inl (AlarmSystemException (''Failed to add event: '' @ what e)), s\<lparr>db := d\<rparr>)
      | (Inr id', d) \<Rightarrow>
          (Inr (),
           s\<lparr>db := d,
             events := pq_push \<lparr>alarm_id = id', description = description', datetime = tp,
                                 recurrence = recurrence'\<rparr> (events s)\<rparr>))"

text \<open>
  \<^verbatim>\<open>AlarmSystem::getEvents\<close>: the loop empties a copy \<^verbatim>\<open>temp\<close> of the queue into
  the result; the queue of the system is not touched.
\<close>

function getEvents_loop ::
  "zone \<Rightarrow> AlarmEvent list \<Rightarrow> (string \<times> string) list \<Rightarrow> (string \<times> string) list" where
  "getEvents_loop z temp result =
     (if temp \<noteq> [] then
        (let event = pq_top temp;
             desc = description event;
             desc = (if recurrence event \<noteq> NONE
                     then desc @ '' ('' @ recurrenceTypeToString (recurrence event) @ '')''
                     else desc)
         in getEvents_loop z (pq_pop temp) (result @ [(desc, formatDateTime z (datetime event))]))
      else result)"
  by pat_completeness auto
termination
  by (relation "measure (\<lambda>(z, temp, result). length temp)") (simp_all add: pq_pop_length)

definition getEvents :: "zone \<Rightarrow> AlarmSystem \<Rightarrow> (string \<times> string) list \<times> AlarmSystem" where
  "getEvents z s = (let temp = events s in (getEvents_loop z temp [], s))"



text \<open>A system with an empty queue on an empty table, with nothing written yet.\<close>

definition empty_system :: AlarmSystem where
  "empty_system = \<lparr>events = [], db = \<lparr>rows = [], last_rowid = 0, calls = []\<rparr>, cout = [], cerr = []\<rparr>"

section \<open>Notions used to state the properties\<close>

text \<open>
  Two time zones for examples: UTC itself, and New York in the years 2024 and
  2025, five hours behind UTC, with daylight saving time from the second Sunday
  of March, 2:00, to the first Sunday of November, 2:00.
\<close>

definition utc :: zone where
  "utc = \<lparr>std_offset = 0, dst_saving = 0, dst_periods = []\<rparr>"




definition max_period :: "RecurrenceType \<Rightarrow> int" where
  \<comment> \<open>a bound on what one period adds to a time point; a month or a year starts
     from the whole seconds of the time, hence the second more\<close>
  "max_period r =
     (if r = DAILY then hours 24
      else if r = WEEKLY then hours (24 * 7)
      else if r = MONTHLY then hours (24 * 31) + ticks_per_second
      else if r = YEARLY then hours (24 * 366) + ticks_per_second
      else 0)"






text \<open>
  The order in which taking \<^verbatim>\<open>top\<close> and \<^verbatim>\<open>pop\<close> again and again empties a queue.
\<close>

function pq_drain :: "AlarmEvent list \<Rightarrow> AlarmEvent list" where
  "pq_drain q = (if q \<noteq> [] then pq_top q # pq_drain (pq_pop q) else [])"
  by pat_completeness auto
termination
  by (relation "measure length") (simp_all add: pq_pop_length)

declare pq_drain.simps [simp del] getEvents_loop.simps [simp del]

text \<open>A sequence of calls of \<^verbatim>\<open>addEvent\<close>, each with the outcome of its insert statement.\<close>

fun submit_all ::
  "zone \<Rightarrow> (sqlite_result \<times> string \<times> string \<times> RecurrenceType) list \<Rightarrow> AlarmSystem \<Rightarrow>
     AlarmSystem" where
  "submit_all z [] s = s"
| "submit_all z ((rc, d, t, r) # subs) s = submit_all z subs (snd (addEvent z rc d t r s))"


section \<open>Properties of the calendar functions\<close>

lemma year_down_le: "days_before_year (year_down d y) \<le> d"
proof (induction d y rule: year_down.induct)
  case (1 d y)
  show ?case
  proof (cases "d < days_before_year y")
    case True
    then have "year_down d y = year_down d (y - 1)"
      by (subst year_down.simps) simp
    with 1 True show ?thesis by simp
  next
    case False
    then have "year_down d y = y"
      by (subst year_down.simps) simp
    with False show ?thesis by simp
  qed
qed

lemma year_up_bounds:
  "days_before_year y \<le> d \<Longrightarrow>
     days_before_year (year_up d y) \<le> d \<and> d < days_before_year (year_up d y + 1)"
proof (induction d y rule: year_up.induct)
  case (1 d y)
  show ?case
  proof (cases "days_before_year (y + 1) \<le> d")
    case True
    then have "year_up d y = year_up d (y + 1)"
      by (subst year_up.simps) simp
    with 1 True show ?thesis by simp
  next
    case False
    then have "year_up d y = y"
      by (subst year_up.simps) simp
    with False 1 show ?thesis by simp
  qed
qed

lemma year_of_days_bounds:
  "days_before_year (year_of_days d) \<le> d \<and> d < days_before_year (year_of_days d + 1)"
  unfolding year_of_days_def by (rule year_up_bounds) (rule year_down_le)




lemma days_before_month_0: "days_before_month y 0 = 0"
  by (simp add: days_before_month_def)

lemma days_before_month_step:
  "0 \<le> m \<Longrightarrow> days_before_month y (m + 1) = days_before_month y m + days_in_month y m"
  by (simp add: days_before_month_def upto_rec2)

lemma days_before_month_12: "days_before_month y 12 = days_in_year y"
proof -
  have "days_before_month y (11 + 1) = days_in_year y"
    using days_before_month_step [of 11 y] days_before_month_step [of 10 y]
      days_before_month_step [of 9 y] days_before_month_step [of 8 y]
      days_before_month_step [of 7 y] days_before_month_step [of 6 y]
      days_before_month_step [of 5 y] days_before_month_step [of 4 y]
      days_before_month_step [of 3 y] days_before_month_step [of 2 y]
      days_before_month_step [of 1 y] days_before_month_step [of 0 y]
    by (simp add: days_before_month_0 days_in_month_def days_in_year_def)
  then show ?thesis by simp
qed


lemma month_up_bounds:
  "0 \<le> m \<Longrightarrow> m \<le> 11 \<Longrightarrow> days_before_month y m \<le> yd \<Longrightarrow> yd < days_before_month y 12 \<Longrightarrow>
     m \<le> month_up y yd m \<and> month_up y yd m \<le> 11 \<and>
     days_before_month y (month_up y yd m) \<le> yd \<and>
     yd < days_before_month y (month_up y yd m + 1)"
proof (induction y yd m rule: month_up.induct)
  case (1 y yd m)
  show ?case
  proof (cases "m < 11 \<and> days_before_month y (m + 1) \<le> yd")
    case True
    have "month_up y yd m = month_up y yd (m + 1)"
      by (subst month_up.simps) (rule if_P, rule True)
    with 1 True show ?thesis by simp
  next
    case False
    have eq: "month_up y yd m = m"
      by (subst month_up.simps) (rule if_not_P, rule False)
    have "yd < days_before_month y (m + 1)"
    proof (cases "m < 11")
      case True
      with False show ?thesis by simp
    next
      case False
      with 1 have "m = 11" by simp
      with 1 show ?thesis by simp
    qed
    with eq 1 show ?thesis by simp
  qed
qed

lemma month_of_bounds:
  assumes "0 \<le> yd" "yd < days_in_year y"
  shows "0 \<le> month_of y yd \<and> month_of y yd \<le> 11 \<and>
     days_before_month y (month_of y yd) \<le> yd \<and>
     yd < days_before_month y (month_of y yd + 1)"
  unfolding month_of_def
  by (rule month_up_bounds) (simp_all add: days_before_month_0 days_before_month_12 assms)


subsection \<open>Seconds of the day\<close>


lemma hms_arith:
  fixes A Q1 M1 M0 r :: int
  assumes "60 * Q1 + M1 = A" "60 * A + M0 = r"
  shows "Q1 * 3600 + M1 * 60 + M0 = r"
  using assms by simp

lemma hms_recompose:
  fixes r :: int
  shows "r div 3600 * 3600 + r div 60 mod 60 * 60 + r mod 60 = r"
proof -
  have "r div (60 * 60) = r div 60 div 60"
    by (rule zdiv_zmult2_eq) simp
  then have a: "r div 3600 = r div 60 div 60" by simp
  have b: "60 * (r div 60 div 60) + r div 60 mod 60 = r div 60"
    by (rule mult_div_mod_eq)
  have c: "60 * (r div 60) + r mod 60 = r"
    by (rule mult_div_mod_eq)
  show ?thesis
    unfolding a by (rule hms_arith [OF b c])
qed



subsection \<open>\<open>timegm\<close> and \<open>gmtime\<close> are inverse on calendar dates\<close>

lemma timegm_in_range:
  assumes "0 \<le> tm_mon x" "tm_mon x \<le> 11"
  shows "timegm x =
     (days_before_year (tm_year x + 1900) + days_before_month (tm_year x + 1900) (tm_mon x) +
        (tm_mday x - 1)) * 86400 + tm_hour x * 3600 + tm_min x * 60 + tm_sec x"
proof -
  have "tm_mon x div 12 = 0" "tm_mon x mod 12 = tm_mon x"
    using assms by simp_all
  then show ?thesis
    by (simp only: timegm_def Let_def add_0_right)
qed

lemma gmtime_sel:
  "tm_sec (gmtime t) = t mod 86400 mod 60"
  "tm_min (gmtime t) = t mod 86400 div 60 mod 60"
  "tm_hour (gmtime t) = t mod 86400 div 3600"
  "tm_year (gmtime t) = year_of_days (t div 86400) - 1900"
  "tm_mon (gmtime t) =
     month_of (year_of_days (t div 86400)) (t div 86400 - days_before_year (year_of_days (t div 86400)))"
  "tm_mday (gmtime t) =
     t div 86400 - days_before_year (year_of_days (t div 86400)) -
       days_before_month (year_of_days (t div 86400))
         (month_of (year_of_days (t div 86400))
            (t div 86400 - days_before_year (year_of_days (t div 86400)))) + 1"
  "tm_isdst (gmtime t) = 0"
  by (simp_all only: gmtime_def Let_def tm.simps)

lemma day_of_year_bounds:
  "0 \<le> d - days_before_year (year_of_days d) \<and>
   d - days_before_year (year_of_days d) < days_in_year (year_of_days d)"
  using year_of_days_bounds [of d] days_before_year_step [of "year_of_days d"] by linarith

lemma gmtime_mon_bounds: "0 \<le> tm_mon (gmtime t) \<and> tm_mon (gmtime t) \<le> 11"
  using month_of_bounds [of "t div 86400 - days_before_year (year_of_days (t div 86400))"
      "year_of_days (t div 86400)"] day_of_year_bounds [of "t div 86400"]
  by (simp only: gmtime_sel)

lemma timegm_gmtime_arith:
  fixes A B D R hms t :: int
  assumes "hms = R" "D * 86400 + R = t"
  shows "(A + B + (D - A - B + 1 - 1)) * 86400 + hms = t"
  using assms by simp

lemma timegm_gmtime: "timegm (gmtime t) = t"
proof -
  let ?R = "t mod 86400"
  let ?D = "t div 86400"
  let ?Y = "year_of_days ?D"
  let ?M = "month_of ?Y (?D - days_before_year ?Y)"
  have m: "0 \<le> tm_mon (gmtime t)" "tm_mon (gmtime t) \<le> 11"
    using gmtime_mon_bounds [of t] by simp_all
  have hms: "?R div 3600 * 3600 + ?R div 60 mod 60 * 60 + ?R mod 60 = ?R"
    by (rule hms_recompose)
  have dr: "?D * 86400 + ?R = t"
    by (rule div_mult_mod_eq)
  have "(days_before_year ?Y + days_before_month ?Y ?M +
      (?D - days_before_year ?Y - days_before_month ?Y ?M + 1 - 1)) * 86400 +
      (?R div 3600 * 3600 + ?R div 60 mod 60 * 60 + ?R mod 60) = t"
    by (rule timegm_gmtime_arith [OF hms dr])
  then show ?thesis
    by (simp only: timegm_in_range [OF m] gmtime_sel diff_add_cancel add.assoc)
qed






section \<open>Properties of the time points\<close>






lemma div_mult_bounds:
  fixes a b :: int
  assumes "0 < b"
  shows "a div b * b \<le> a" and "a < a div b * b + b"
  using div_mult_mod_eq [of a b] pos_mod_sign [OF assms, of a] pos_mod_bound [OF assms, of a]
  by linarith+






section \<open>Properties of the recurrence calculator\<close>

subsection \<open>Local time\<close>

lemma timegm_isdst: "timegm (x\<lparr>tm_isdst := v\<rparr>) = timegm x"
  by (simp add: timegm_def)

lemma timegm_localtime: "timegm (localtime z t) = t + utc_offset z t"
  by (simp add: localtime_def timegm_isdst timegm_gmtime)


lemma localtime_isdst: "tm_isdst (localtime z t) = (if dst_active z t then 1 else 0)"
  by (simp add: localtime_def)

lemma mktime_as_localtime:
  assumes "tm_isdst x = tm_isdst (localtime z t)"
  shows "mktime z x = timegm x - utc_offset z t"
  using assms by (simp add: mktime_def localtime_isdst utc_offset_def Let_def)

lemma mktime_localtime: "mktime z (localtime z t) = t"
  by (simp add: mktime_as_localtime timegm_localtime)

subsection \<open>The length of a month and of a year\<close>








subsection \<open>One period\<close>



lemmas RecurrenceType_defs = NONE_def DAILY_def WEEKLY_def MONTHLY_def YEARLY_def





lemma max_period_nonneg: "0 \<le> max_period r"
  by (simp add: max_period_def hours_def ticks_per_second_def)











subsection \<open>The loop returns, and what it returns\<close>











subsection \<open>Daily and weekly: the result in closed form\<close>






lemma daily_result_bound:
  fixes now time P :: int
  assumes "0 < P"
  shows "time + P * ((now - time) div P + 1) \<le> now + P"
proof -
  have "(now - time) div P * P \<le> now - time" by (rule div_mult_bounds(1) [OF assms])
  then show ?thesis by (simp add: algebra_simps)
qed

subsection \<open>The calendar fields after one period\<close>











section \<open>Properties of the time string\<close>

subsection \<open>Reading back what was written\<close>









subsection \<open>Parsing what was formatted\<close>















section \<open>Properties of the alarm system\<close>

subsection \<open>Listing the queue\<close>

lemma pq_drain_Nil: "pq_drain [] = []"
  by (subst pq_drain.simps) simp

lemma pq_drain_Cons: "q \<noteq> [] \<Longrightarrow> pq_drain q = pq_top q # pq_drain (pq_pop q)"
  by (subst pq_drain.simps) simp

lemma mset_pq_pop: "q \<noteq> [] \<Longrightarrow> add_mset (pq_top q) (mset (pq_pop q)) = mset q"
  using pq_top_in [of q] by (simp add: pq_pop_def)

lemma mset_pq_drain: "mset (pq_drain q) = mset q"
proof (induction q rule: pq_drain.induct)
  case (1 q)
  show ?case
  proof (cases "q = []")
    case True
    then show ?thesis by (simp add: pq_drain_Nil)
  next
    case False
    with 1 show ?thesis by (simp add: pq_drain_Cons mset_pq_pop)
  qed
qed

lemma set_pq_drain: "set (pq_drain q) = set q"
  using mset_pq_drain [of q] by (metis set_mset_mset)

lemma sorted_pq_drain: "sorted (map datetime (pq_drain q))"
proof (induction q rule: pq_drain.induct)
  case (1 q)
  show ?case
  proof (cases "q = []")
    case True
    then show ?thesis by (simp add: pq_drain_Nil)
  next
    case False
    have "datetime (pq_top q) \<le> datetime e" if "e \<in> set (pq_drain (pq_pop q))" for e
    proof -
      from that have "e \<in> set (pq_pop q)" by (simp add: set_pq_drain)
      then have "e \<in> set q"
        using set_remove1_subset [of "pq_top q" q] by (auto simp: pq_pop_def)
      then show ?thesis by (rule pq_top_least)
    qed
    with 1 False show ?thesis by (auto simp: pq_drain_Cons)
  qed
qed

lemma getEvents_loop_drain:
  "getEvents_loop z temp result =
     result @ map (\<lambda>e. (if recurrence e \<noteq> NONE
                          then description e @ '' ('' @ recurrenceTypeToString (recurrence e) @ '')''
                          else description e,
                          formatDateTime z (datetime e))) (pq_drain temp)"
proof (induction z temp result rule: getEvents_loop.induct)
  case (1 z temp result)
  show ?case
  proof (cases "temp = []")
    case True
    then show ?thesis
      by (subst getEvents_loop.simps) (simp add: pq_drain_Nil)
  next
    case False
    with 1 show ?thesis
      by (subst getEvents_loop.simps) (simp add: pq_drain_Cons Let_def)
  qed
qed

lemma addEvent_events:
  "map (\<lambda>e. (description e, datetime e, recurrence e)) (events (snd (addEvent z rc d t r s))) =
   map (\<lambda>e. (description e, datetime e, recurrence e)) (events s) @
     (if rc = SQLITE_OK then [(d, parseDateTime z t, r)] else [])"
  by (cases rc) (simp_all add: addEvent_def Database_addAlarm_def Let_def pq_push_def)

lemma submit_all_events:
  "map (\<lambda>e. (description e, datetime e, recurrence e)) (events (submit_all z subs s)) =
   map (\<lambda>e. (description e, datetime e, recurrence e)) (events s) @
     map (\<lambda>(rc, d, t, r). (d, parseDateTime z t, r)) (filter (\<lambda>(rc, d, t, r). rc = SQLITE_OK) subs)"
  by (induction z subs s rule: submit_all.induct) (simp_all add: addEvent_events)

subsection \<open>Outcomes of the database calls\<close>

lemma Database_addAlarm_failure:
  assumes "rc \<noteq> SQLITE_OK"
  shows "\<exists>m. Database_addAlarm rc d t r database =
     (Inl (DatabaseException m),
      database\<lparr>calls := calls database @ [AddAlarm d t r]\<rparr>)"
  using assms by (cases rc) (simp_all add: Database_addAlarm_def)

lemma Database_addAlarm_success:
  "Database_addAlarm SQLITE_OK d t r database =
     (Inr (last_rowid database + 1),
      database\<lparr>calls := calls database @ [AddAlarm d t r],
        rows := rows database @ [\<lparr>row_id = last_rowid database + 1, row_description = d,
                 row_datetime = t, row_recurrence = static_cast_int r\<rparr>],
        last_rowid := last_rowid database + 1\<rparr>)"
  by (simp add: Database_addAlarm_def Let_def)

subsection \<open>Loading the saved alarms\<close>







subsection \<open>The scheduler loop\<close>




subsection \<open>Firing a Daily event at its due time\<close>


section \<open>The claims\<close>




text \<open>
  \<^bold>\<open>C2\<close>, as the claim states it, fails: the program has no validation of the
  time string. \<^verbatim>\<open>parseDateTime\<close> does not look at the failure flag that
  \<^verbatim>\<open>get_time\<close> sets, and \<^verbatim>\<open>addEvent\<close> catches database failures only. For the
  string \<open>tomorrow 10am\<close> the reading fails, yet the call succeeds, the string is
  stored in the table, and the event enters the queue.
\<close>

theorem addEvent_malformed_counterexample:
  "fst (get_time ''tomorrow 10am'') = False \<and>
   fst (addEvent utc SQLITE_OK ''Meeting'' ''tomorrow 10am'' NONE empty_system) = Inr () \<and>
   events (snd (addEvent utc SQLITE_OK ''Meeting'' ''tomorrow 10am'' NONE empty_system)) =
     [\<lparr>alarm_id = 1, description = ''Meeting'', datetime = parseDateTime utc ''tomorrow 10am'',
       recurrence = NONE\<rparr>] \<and>
   rows (db (snd (addEvent utc SQLITE_OK ''Meeting'' ''tomorrow 10am'' NONE empty_system))) =
     [\<lparr>row_id = 1, row_description = ''Meeting'', row_datetime = ''tomorrow 10am'',
       row_recurrence = 0\<rparr>]"
  by code_simp

text \<open>
  \<^bold>\<open>C2\<close>, amended. \<^verbatim>\<open>addEvent\<close> never rejects a time string. For every string,
  \<^verbatim>\<open>parseDateTime\<close> yields a time point (from the fields read before the reading
  stopped, the others being 0), and when the insert succeeds the call succeeds,
  the string is stored as it is and the event enters the queue with that time
  point. The only failure of \<^verbatim>\<open>addEvent\<close> is the failure of the insert.
\<close>

theorem addEvent_accepts_any_string:
  "fst (addEvent z SQLITE_OK d t r s) = Inr () \<and>
   events (snd (addEvent z SQLITE_OK d t r s)) =
     pq_push \<lparr>alarm_id = last_rowid (db s) + 1, description = d, datetime = parseDateTime z t,
               recurrence = r\<rparr> (events s) \<and>
   rows (db (snd (addEvent z SQLITE_OK d t r s))) =
     rows (db s) @ [\<lparr>row_id = last_rowid (db s) + 1, row_description = d, row_datetime = t,
                      row_recurrence = static_cast_int r\<rparr>] \<and>
   parseDateTime z t = from_time_t (mktime z (snd (get_time t))) \<and>
   (fst (addEvent z rc d t r s) = Inr () \<or>
    (\<exists>m. fst (Database_addAlarm rc d t r (db s)) = Inl (DatabaseException m) \<and>
         fst (addEvent z rc d t r s) = Inl (AlarmSystemException (''Failed to add event: '' @ m))))"
proof -
  have "fst (addEvent z rc d t r s) = Inr () \<or>
    (\<exists>m. fst (Database_addAlarm rc d t r (db s)) = Inl (DatabaseException m) \<and>
         fst (addEvent z rc d t r s) = Inl (AlarmSystemException (''Failed to add event: '' @ m)))"
  proof (cases "rc = SQLITE_OK")
    case True
    then show ?thesis by (simp add: addEvent_def Database_addAlarm_success)
  next
    case False
    from Database_addAlarm_failure [OF False] obtain m where
      "Database_addAlarm rc d t r (db s) =
         (Inl (DatabaseException m), (db s)\<lparr>calls := calls (db s) @ [AddAlarm d t r]\<rparr>)"
      by blast
    then have "fst (Database_addAlarm rc d t r (db s)) = Inl (DatabaseException m) \<and>
         fst (addEvent z rc d t r s) = Inl (AlarmSystemException (''Failed to add event: '' @ m))"
      by (simp add: addEvent_def)
    then show ?thesis by blast
  qed
  then show ?thesis
    by (simp add: addEvent_def Database_addAlarm_success parseDateTime_def)
qed

text \<open>
  \<^bold>\<open>C3\<close>. After any sequence of calls of \<^verbatim>\<open>addEvent\<close> from any state, the queue
  holds the events it held before and one event for each call whose insert
  succeeded, and \<^verbatim>\<open>getEvents\<close> lists the events of the queue, each once, in
  non-decreasing order of due time; the description of an event whose recurrence
  is not \<open>NONE\<close> is followed by the name of the kind in parentheses, as in
  \<open>X (Daily)\<close>, and the description of a one-shot event is returned as it is.
\<close>

theorem getEvents_sorted_annotated:
  "fst (getEvents z (submit_all z subs s)) =
     map (\<lambda>e. (if recurrence e \<noteq> NONE
                 then description e @ '' ('' @ recurrenceTypeToString (recurrence e) @ '')''
                 else description e,
                 formatDateTime z (datetime e)))
       (pq_drain (events (submit_all z subs s))) \<and>
   sorted (map datetime (pq_drain (events (submit_all z subs s)))) \<and>
   mset (pq_drain (events (submit_all z subs s))) = mset (events (submit_all z subs s)) \<and>
   map (\<lambda>e. (description e, datetime e, recurrence e)) (events (submit_all z subs s)) =
     map (\<lambda>e. (description e, datetime e, recurrence e)) (events s) @
     map (\<lambda>(rc, d, t, r). (d, parseDateTime z t, r)) (filter (\<lambda>(rc, d, t, r). rc = SQLITE_OK) subs) \<and>
   recurrenceTypeToString DAILY = ''Daily'' \<and> recurrenceTypeToString WEEKLY = ''Weekly'' \<and>
   recurrenceTypeToString MONTHLY = ''Monthly'' \<and> recurrenceTypeToString YEARLY = ''Yearly''"
  by (simp add: getEvents_def getEvents_loop_drain sorted_pq_drain mset_pq_drain
      submit_all_events recurrenceTypeToString_def RecurrenceType_defs)

text \<open>
  \<^bold>\<open>C4\<close>. If the insert statement of \<^verbatim>\<open>Database::addAlarm\<close> fails (it cannot be
  prepared, or its step does not finish), \<^verbatim>\<open>addEvent\<close> passes the failure on to
  the caller as an \<^verbatim>\<open>AlarmSystemException\<close> that carries the message of the
  \<^verbatim>\<open>DatabaseException\<close>, and nothing is inserted: the queue and the table are
  what they were.
\<close>

theorem addEvent_persistence_failure:
  assumes "rc \<noteq> SQLITE_OK"
  shows "\<exists>m. fst (Database_addAlarm rc d t r (db s)) = Inl (DatabaseException m) \<and>
     fst (addEvent z rc d t r s) = Inl (AlarmSystemException (''Failed to add event: '' @ m)) \<and>
     events (snd (addEvent z rc d t r s)) = events s \<and>
     rows (db (snd (addEvent z rc d t r s))) = rows (db s) \<and>
     last_rowid (db (snd (addEvent z rc d t r s))) = last_rowid (db s) \<and>
     cout (snd (addEvent z rc d t r s)) = cout s \<and> cerr (snd (addEvent z rc d t r s)) = cerr s"
proof -
  from Database_addAlarm_failure [OF assms] obtain m where
    "Database_addAlarm rc d t r (db s) =
       (Inl (DatabaseException m), (db s)\<lparr>calls := calls (db s) @ [AddAlarm d t r]\<rparr>)"
    by blast
  then show ?thesis
    by (intro exI [of _ m]) (simp add: addEvent_def)
qed

theorem addEvent_persistence_failure_witness:
  "\<exists>m. fst (Database_addAlarm (STEP_ERROR ''database is locked'') ''Meeting''
            ''2099-01-01 09:00'' NONE (db empty_system)) = Inl (DatabaseException m) \<and>
     fst (addEvent utc (STEP_ERROR ''database is locked'') ''Meeting'' ''2099-01-01 09:00'' NONE
            empty_system) = Inl (AlarmSystemException (''Failed to add event: '' @ m)) \<and>
     events (snd (addEvent utc (STEP_ERROR ''database is locked'') ''Meeting'' ''2099-01-01 09:00''
            NONE empty_system)) = [] \<and>
     rows (db (snd (addEvent utc (STEP_ERROR ''database is locked'') ''Meeting''
            ''2099-01-01 09:00'' NONE empty_system))) = []"
proof -
  have h: "STEP_ERROR ''database is locked'' \<noteq> SQLITE_OK" by simp
  have e: "events empty_system = []" "rows (db empty_system) = []"
    by (simp_all add: empty_system_def)
  from addEvent_persistence_failure [OF h, of "''Meeting''" "''2099-01-01 09:00''" NONE
      empty_system utc]
  show ?thesis unfolding e by blast
qed








text \<open>
  \<^bold>\<open>C8\<close>. \<^verbatim>\<open>getEvents\<close> returns the state it was given, and a second call right
  after the first returns the same list.
\<close>

theorem getEvents_leaves_state:
  "snd (getEvents z s) = s \<and> events (snd (getEvents z s)) = events s \<and>
   fst (getEvents z (snd (getEvents z s))) = fst (getEvents z s)"
  by (simp add: getEvents_def)








end
